theory Spec2Isabelle
  imports Complex_Main "HOL-Library.Char_ord" "HOL-Library.List_Lexorder"
begin

section \<open>Characters and strings\<close>

text \<open>
  Python strings are modelled as HOL strings: a \<^typ>\<open>char\<close> stands for the code point of
  the same number, so the model covers text whose code points are below 256. On that
  range the character classes of Python's \<^verbatim>\<open>re\<close> module and of \<^verbatim>\<open>str.strip\<close> are:
  white space (\<^verbatim>\<open>\s\<close>, \<^verbatim>\<open>str.isspace\<close>) is 9..13, 28..32, 133 and 160; a decimal digit
  (\<^verbatim>\<open>\d\<close> and \<^verbatim>\<open>[0-9]\<close>) is 48..57; \<^verbatim>\<open>.\<close> is every character but the line feed.
\<close>

definition newline :: char where
  "newline = CHR 0x0A"

definition is_space :: "char \<Rightarrow> bool" where
  "is_space c = (let n = (of_char c :: nat) in
     (9 \<le> n \<and> n \<le> 13) \<or> (28 \<le> n \<and> n \<le> 32) \<or> n = 133 \<or> n = 160)"

definition is_digit :: "char \<Rightarrow> bool" where
  "is_digit c = (let n = (of_char c :: nat) in 48 \<le> n \<and> n \<le> 57)"

definition not_newline :: "char \<Rightarrow> bool" where
  "not_newline c = (c \<noteq> newline)"

text \<open>\<^verbatim>\<open>str.strip()\<close>: white space removed at both ends.\<close>

definition lstrip :: "string \<Rightarrow> string" where
  "lstrip s = dropWhile is_space s"

definition rstrip :: "string \<Rightarrow> string" where
  "rstrip s = rev (dropWhile is_space (rev s))"

definition strip :: "string \<Rightarrow> string" where
  "strip s = rstrip (lstrip s)"

text \<open>\<^verbatim>\<open>str.startswith("#")\<close>.\<close>

definition startswith_hash :: "string \<Rightarrow> bool" where
  "startswith_hash s = (case s of [] \<Rightarrow> False | c # _ \<Rightarrow> c = CHR ''#'')"

section \<open>The line pattern\<close>

text \<open>
  \<^verbatim>\<open>LINE_PATTERN = re.compile(r"^(\s*\d{1,2}:\d{2})\s+([0-9]{5})?\s*(.*)$")\<close>

  Python's matcher backtracks: a greedy quantifier first takes as much as it can and gives
  characters back one at a time while the rest of the pattern fails; an optional group is
  tried present first, then absent. The pieces of the pattern are written in
  continuation-passing style: a piece takes the matcher of the rest of the pattern
  (the continuation, applied to the text still to be read) and the text, and returns the
  first success in Python's order, or \<open>None\<close>.
\<close>

type_synonym 'a cont = "string \<Rightarrow> 'a option"

text \<open>\<open>orelse\<close>: the first alternative if it succeeds, otherwise the second.\<close>

definition orelse :: "'a option \<Rightarrow> 'a option \<Rightarrow> 'a option" where
  "orelse a b = (case a of Some r \<Rightarrow> Some r | None \<Rightarrow> b)"

text \<open>One character of a class.\<close>

definition re_class :: "(char \<Rightarrow> bool) \<Rightarrow> 'a cont \<Rightarrow> 'a cont" where
  "re_class p k s = (case s of [] \<Rightarrow> None | c # cs \<Rightarrow> if p c then k cs else None)"

text \<open>A greedy \<^verbatim>\<open>*\<close> over a class: one more character first, the rest of the pattern here
  only when that fails.\<close>

fun re_star :: "(char \<Rightarrow> bool) \<Rightarrow> 'a cont \<Rightarrow> 'a cont" where
  "re_star p k [] = k []"
| "re_star p k (c # cs) =
     (if p c then orelse (re_star p k cs) (k (c # cs)) else k (c # cs))"

text \<open>A greedy \<^verbatim>\<open>+\<close>: one character of the class, then \<^verbatim>\<open>*\<close>.\<close>

definition re_plus :: "(char \<Rightarrow> bool) \<Rightarrow> 'a cont \<Rightarrow> 'a cont" where
  "re_plus p k = re_class p (re_star p k)"

text \<open>\<^verbatim>\<open>\d{1,2}\<close>: two digits first, one digit when that fails.\<close>

definition re_digits_1_2 :: "'a cont \<Rightarrow> 'a cont" where
  "re_digits_1_2 k = re_class is_digit (\<lambda>s. orelse (re_class is_digit k s) (k s))"

text \<open>\<^verbatim>\<open>\d{2}\<close>.\<close>

definition re_digits_2 :: "'a cont \<Rightarrow> 'a cont" where
  "re_digits_2 k = re_class is_digit (re_class is_digit k)"

text \<open>\<^verbatim>\<open>([0-9]{5})?\<close>: the group present (its text handed to the continuation) first,
  absent (\<open>None\<close>, nothing consumed) when that fails.\<close>

definition re_opt_task_id :: "(string option \<Rightarrow> 'a cont) \<Rightarrow> 'a cont" where
  "re_opt_task_id k s =
     orelse (if 5 \<le> length s \<and> list_all is_digit (take 5 s)
             then k (Some (take 5 s)) (drop 5 s) else None)
            (k None s)"

text \<open>\<^verbatim>\<open>$\<close> without the MULTILINE flag: the end of the text, or just before a line feed
  that ends the text.\<close>

definition at_end :: "string \<Rightarrow> bool" where
  "at_end s = (s = [] \<or> s = [newline])"

text \<open>The text a group matched, from the text where it started and the text left when it
  ended.\<close>

definition matched :: "string \<Rightarrow> string \<Rightarrow> string" where
  "matched start rest = take (length start - length rest) start"

text \<open>
  \<^verbatim>\<open>
  def parse_line(line):
      m = LINE_PATTERN.match(line)
      if not m:
          return None
      time_str = m.group(1).strip()
      task_id = m.group(2)
      desc = m.group(3) or ""
      return time_str, task_id, desc
  \<close>
\<close>

definition parse_line :: "string \<Rightarrow> (string \<times> string option \<times> string) option" where
  "parse_line line =
     re_star is_space (re_digits_1_2 (re_class (\<lambda>c. c = CHR '':'') (re_digits_2 (\<lambda>r1.
       re_plus is_space (re_opt_task_id (\<lambda>task_id.
         re_star is_space (\<lambda>r3.
           re_star not_newline (\<lambda>r4.
             if at_end r4
             then Some (strip (matched line r1), task_id, matched r3 r4)
             else None) r3))) r1)))) line"

section \<open>Timestamps and deltas\<close>

datatype error = ValueError | FileNotFoundError

text \<open>
  A \<^verbatim>\<open>datetime\<close> of the log's time zone. Seconds and microseconds are left out: the code
  reads only the date of \<^verbatim>\<open>today\<close> and builds every timestamp with hour and minute alone.
  All timestamps carry the same \<^verbatim>\<open>tzinfo\<close> object, so Python subtracts them without any
  time-zone adjustment.
\<close>

record datetime =
  year :: int
  month :: int
  day :: int
  hour :: int
  minute :: int

definition is_leap :: "int \<Rightarrow> bool" where
  "is_leap y = (y mod 4 = 0 \<and> (y mod 100 \<noteq> 0 \<or> y mod 400 = 0))"

definition days_in_month :: "int \<Rightarrow> int \<Rightarrow> int" where
  "days_in_month y m =
     (if m = 2 then (if is_leap y then 29 else 28)
      else if m = 4 \<or> m = 6 \<or> m = 9 \<or> m = 11 then 30 else 31)"

text \<open>The checks of the \<^verbatim>\<open>datetime\<close> constructor on a date.\<close>

definition valid_date :: "int \<Rightarrow> int \<Rightarrow> int \<Rightarrow> bool" where
  "valid_date y m d =
     (1 \<le> y \<and> y \<le> 9999 \<and> 1 \<le> m \<and> m \<le> 12 \<and> 1 \<le> d \<and> d \<le> days_in_month y m)"

text \<open>\<^verbatim>\<open>datetime(year=.., month=.., day=.., hour=.., minute=.., tzinfo=LOG_TZ)\<close>: a
  \<^verbatim>\<open>ValueError\<close> when a field is out of range.\<close>

definition mk_datetime :: "int \<Rightarrow> int \<Rightarrow> int \<Rightarrow> int \<Rightarrow> int \<Rightarrow> error + datetime" where
  "mk_datetime y m d h mi =
     (if valid_date y m d \<and> 0 \<le> h \<and> h \<le> 23 \<and> 0 \<le> mi \<and> mi \<le> 59
      then Inr \<lparr>year = y, month = m, day = d, hour = h, minute = mi\<rparr>
      else Inl ValueError)"

text \<open>The day number of a date (\<^verbatim>\<open>date.toordinal\<close>).\<close>

definition days_before_year :: "int \<Rightarrow> int" where
  "days_before_year y = (y - 1) * 365 + (y - 1) div 4 - (y - 1) div 100 + (y - 1) div 400"

definition days_before_month :: "int \<Rightarrow> int \<Rightarrow> int" where
  "days_before_month y m = sum_list (map (days_in_month y) [1..m - 1])"

definition toordinal :: "datetime \<Rightarrow> int" where
  "toordinal t = days_before_year (year t) + days_before_month (year t) (month t) + day t"

text \<open>A \<^verbatim>\<open>timedelta\<close> is a whole number of seconds here (the deltas of the program are
  differences of whole minutes), and \<^verbatim>\<open>int(td.total_seconds())\<close> reads it.\<close>

type_synonym timedelta = int

definition total_seconds :: "timedelta \<Rightarrow> int" where
  "total_seconds td = td"

text \<open>\<^verbatim>\<open>j - i\<close> on two timestamps.\<close>

definition datetime_sub :: "datetime \<Rightarrow> datetime \<Rightarrow> timedelta" where
  "datetime_sub j i =
     (toordinal j - toordinal i) * 86400 + (hour j - hour i) * 3600 + (minute j - minute i) * 60"

text \<open>\<^verbatim>\<open>str.split(":")\<close>.\<close>

fun split_on :: "char \<Rightarrow> string \<Rightarrow> string list" where
  "split_on sep [] = [[]]"
| "split_on sep (c # cs) =
     (if c = sep then [] # split_on sep cs
      else (case split_on sep cs of [] \<Rightarrow> [[c]] | r # rs \<Rightarrow> (c # r) # rs))"

text \<open>
  \<^verbatim>\<open>int(s)\<close> on a text of decimal digits; \<open>None\<close> stands for \<^verbatim>\<open>ValueError\<close>. Python also
  accepts a sign, surrounding white space and underscores between digits; the parts of a
  matched time have none of these (lemma \<open>parse_line_time_fields\<close> below), so the branch
  is the same for every text the program converts.
\<close>

definition digit_val :: "char \<Rightarrow> int" where
  "digit_val c = int (of_char c) - 48"

definition py_int :: "string \<Rightarrow> int option" where
  "py_int s =
     (if s \<noteq> [] \<and> list_all is_digit s
      then Some (foldl (\<lambda>a c. 10 * a + digit_val c) 0 s) else None)"

text \<open>
  \<^verbatim>\<open>
  def get_timestamps(today, lines):
      timestamps = []
      for line in lines:
          parsed = parse_line(line)
          if not parsed:
              continue
          time_str, _, _ = parsed
          try:
              hour, minute = map(int, time_str.split(":"))
          except ValueError:
              continue
          timestamps.append(datetime(year=today.year, month=today.month, day=today.day,
                                     hour=hour, minute=minute, tzinfo=LOG_TZ))
      return timestamps
  \<close>
  The conversion of the two fields is guarded; the construction of the datetime is not, so
  its \<^verbatim>\<open>ValueError\<close> leaves the function.
\<close>

fun get_timestamps :: "datetime \<Rightarrow> string list \<Rightarrow> error + datetime list" where
  "get_timestamps today [] = Inr []"
| "get_timestamps today (line # lines) =
     (case parse_line line of
        None \<Rightarrow> get_timestamps today lines
      | Some (time_str, _, _) \<Rightarrow>
          (case map py_int (split_on (CHR '':'') time_str) of
             [Some h, Some mi] \<Rightarrow>
               (case mk_datetime (year today) (month today) (day today) h mi of
                  Inl e \<Rightarrow> Inl e
                | Inr ts \<Rightarrow>
                    (case get_timestamps today lines of
                       Inl e \<Rightarrow> Inl e
                     | Inr rest \<Rightarrow> Inr (ts # rest)))
           | _ \<Rightarrow> get_timestamps today lines))"

text \<open>\<^verbatim>\<open>itertools.pairwise\<close>.\<close>

definition pairwise :: "'a list \<Rightarrow> ('a \<times> 'a) list" where
  "pairwise xs = zip xs (tl xs)"

text \<open>
  \<^verbatim>\<open>
  def get_deltas(timestamps):
      return [j - i for i, j in pairwise(timestamps)] if len(timestamps) > 1 else []
  \<close>
\<close>

definition get_deltas :: "datetime list \<Rightarrow> timedelta list" where
  "get_deltas timestamps =
     (if length timestamps > 1 then map (\<lambda>(i, j). datetime_sub j i) (pairwise timestamps)
      else [])"

section \<open>Task results\<close>

record TaskResult =
  task_id :: "string option"
  delta_seconds :: int
  desc :: string

text \<open>
  \<^verbatim>\<open>
  def get_tasks_results(deltas, lines):
      results = []
      for i, line in enumerate(lines):
          parsed = parse_line(line)
          if not parsed:
              continue
          _, task_id, desc = parsed
          if i >= len(deltas):
              break
          delta_seconds = int(deltas[i].total_seconds())
          results.append(TaskResult(task_id=task_id, delta_seconds=delta_seconds, desc=desc))
      return results
  \<close>
  \<open>i\<close> counts all lines, the skipped ones too.
\<close>

fun tasks_results_from :: "nat \<Rightarrow> timedelta list \<Rightarrow> string list \<Rightarrow> TaskResult list" where
  "tasks_results_from i deltas [] = []"
| "tasks_results_from i deltas (line # lines) =
     (case parse_line line of
        None \<Rightarrow> tasks_results_from (Suc i) deltas lines
      | Some (_, tid, d) \<Rightarrow>
          if i \<ge> length deltas then []
          else \<lparr>task_id = tid, delta_seconds = total_seconds (deltas ! i), desc = d\<rparr>
               # tasks_results_from (Suc i) deltas lines)"

definition get_tasks_results :: "timedelta list \<Rightarrow> string list \<Rightarrow> TaskResult list" where
  "get_tasks_results deltas lines = tasks_results_from 0 deltas lines"

section \<open>Numbers\<close>

text \<open>
  A Python \<^verbatim>\<open>float\<close> is modelled by the rational number it stands for. The floats of the
  program are quotients of minute counts and sums of multiples of a quarter; for minute
  counts of any realistic size the only inexact operation, \<^verbatim>\<open>total_minutes / 60.0\<close>, is off
  by a relative error of \<open>2\<^sup>-\<^sup>5\<^sup>3\<close>, while \<open>m / 15\<close> is never closer than \<open>1 / 30\<close> to a rounding
  tie (lemma \<open>quarter_no_tie\<close>), so the rounded result is the one of exact arithmetic.
\<close>

text \<open>\<^verbatim>\<open>int(x)\<close> on a float: truncation towards zero.\<close>

definition py_trunc :: "rat \<Rightarrow> int" where
  "py_trunc x = (if 0 \<le> x then \<lfloor>x\<rfloor> else \<lceil>x\<rceil>)"

text \<open>\<^verbatim>\<open>round(x)\<close> on a float: to the nearest integer, a tie to the even one.\<close>

definition py_round :: "rat \<Rightarrow> int" where
  "py_round x =
     (let f = \<lfloor>x\<rfloor>; d = x - of_int f in
      if d < 1 / 2 then f else if 1 / 2 < d then f + 1 else if even f then f else f + 1)"

text \<open>
  \<^verbatim>\<open>
  def minutes_to_rounded_decimal_hours(total_minutes):
      hours = total_minutes / 60.0
      return round(hours * 4) / 4
  \<close>
\<close>

definition minutes_to_rounded_decimal_hours :: "int \<Rightarrow> rat" where
  "minutes_to_rounded_decimal_hours total_minutes =
     (let hours = of_int total_minutes / 60 in of_int (py_round (hours * 4)) / 4)"

text \<open>\<^verbatim>\<open>sum(...)\<close>: a left fold from 0.\<close>

definition py_sum :: "int list \<Rightarrow> int" where
  "py_sum xs = foldl (+) 0 xs"

section \<open>Grouping\<close>

text \<open>
  A Python \<^verbatim>\<open>dict\<close> keeps its keys in insertion order, each key once; it is an
  association list here. \<open>setdefault\<close> adds a key at the end when it is missing and leaves
  the mapping alone otherwise; \<open>alist_modify\<close> is an update in place of the value under a
  key. Every bucket is a dict of its own (\<^verbatim>\<open>group_tasks\<close> creates one per key), so buckets
  are values.
\<close>

fun setdefault :: "'k \<Rightarrow> 'v \<Rightarrow> ('k \<times> 'v) list \<Rightarrow> ('k \<times> 'v) list" where
  "setdefault k v [] = [(k, v)]"
| "setdefault k v ((k', v') # g) =
     (if k = k' then (k', v') # g else (k', v') # setdefault k v g)"

fun alist_modify :: "'k \<Rightarrow> ('v \<Rightarrow> 'v) \<Rightarrow> ('k \<times> 'v) list \<Rightarrow> ('k \<times> 'v) list" where
  "alist_modify k f [] = []"
| "alist_modify k f ((k', v) # g) =
     (if k = k' then (k', f v) # g else (k', v) # alist_modify k f g)"

text \<open>A bucket while it is accumulated: the keys \<^verbatim>\<open>"delta"\<close>, \<^verbatim>\<open>"desc"\<close> and, when the
  task id is given, \<^verbatim>\<open>"task_id"\<close>.\<close>

record acc_entry =
  acc_delta :: int
  acc_desc :: "string set"
  acc_task_id :: "string option"

text \<open>A finished bucket: the second loop of \<^verbatim>\<open>group_tasks\<close> adds the four computed keys to
  every bucket.\<close>

record entry =
  entry_delta :: int
  entry_desc :: "string set"
  entry_task_id :: "string option"
  task_total_mins :: int
  task_total_hours :: int
  task_total_rest :: int
  rounded_hours :: rat

text \<open>\<^verbatim>\<open>if tr.task_id:\<close> a task id counts when it is there and not the empty text.\<close>

definition has_task_id :: "TaskResult \<Rightarrow> bool" where
  "has_task_id tr = (case task_id tr of None \<Rightarrow> False | Some t \<Rightarrow> t \<noteq> [])"

text \<open>The key of a result: \<^verbatim>\<open>f"{tr.task_id} {tr.desc}"\<close> with a task id,
  \<^verbatim>\<open>tr.desc or "#no-desc"\<close> without.\<close>

definition group_key :: "TaskResult \<Rightarrow> string" where
  "group_key tr =
     (if has_task_id tr then the (task_id tr) @ '' '' @ desc tr
      else if desc tr \<noteq> [] then desc tr else ''#no-desc'')"

text \<open>
  \<^verbatim>\<open>
  for tr in tasks_results:
      mins = int(tr.delta_seconds / 60)
      if tr.task_id:
          key = f"{tr.task_id} {tr.desc}"
          entry = grouped.setdefault(key, {"delta": 0, "desc": set(), "task_id": tr.task_id})
      else:
          key = tr.desc or "#no-desc"
          entry = grouped.setdefault(key, {"delta": 0, "desc": set()})
      entry["delta"] += mins
      if tr.desc:
          entry["desc"].add(tr.desc)
  \<close>
\<close>

definition group_step :: "(string \<times> acc_entry) list \<Rightarrow> TaskResult \<Rightarrow> (string \<times> acc_entry) list" where
  "group_step grouped tr =
     (let mins = py_trunc (of_int (delta_seconds tr) / 60);
          key = group_key tr;
          fresh = \<lparr>acc_delta = 0, acc_desc = {},
                   acc_task_id = (if has_task_id tr then task_id tr else None)\<rparr>
      in alist_modify key
           (\<lambda>e. e\<lparr>acc_delta := acc_delta e + mins,
                  acc_desc := (if desc tr \<noteq> [] then insert (desc tr) (acc_desc e)
                               else acc_desc e)\<rparr>)
           (setdefault key fresh grouped))"

text \<open>
  \<^verbatim>\<open>
  for values in grouped.values():
      total_mins = int(values["delta"])
      values["task_total_mins"] = total_mins
      values["task_total_hours"] = total_mins // 60
      values["task_total_rest"] = total_mins % 60
      values["rounded_hours"] = minutes_to_rounded_decimal_hours(total_mins)
  \<close>
\<close>

definition finalize :: "acc_entry \<Rightarrow> entry" where
  "finalize values =
     (let total_mins = acc_delta values in
      \<lparr>entry_delta = acc_delta values, entry_desc = acc_desc values,
       entry_task_id = acc_task_id values,
       task_total_mins = total_mins,
       task_total_hours = total_mins div 60,
       task_total_rest = total_mins mod 60,
       rounded_hours = minutes_to_rounded_decimal_hours total_mins\<rparr>)"

definition group_tasks :: "TaskResult list \<Rightarrow> (string \<times> entry) list" where
  "group_tasks tasks_results =
     map (\<lambda>(key, values). (key, finalize values)) (foldl group_step [] tasks_results)"

text \<open>
  \<^verbatim>\<open>
  def apply_defaults(grouped_tasks, defaults_map):
      for description, value in defaults_map.items():
          if description in grouped_tasks:
              grouped_tasks[description]["task_id"] = value
  \<close>
  The mapping is changed in place; the model returns the changed mapping.
\<close>

definition apply_defaults ::
  "(string \<times> entry) list \<Rightarrow> (string \<times> string) list \<Rightarrow> (string \<times> entry) list" where
  "apply_defaults grouped_tasks defaults_map =
     foldl (\<lambda>g (description, v).
              if description \<in> set (map fst g)
              then alist_modify description (\<lambda>e. e\<lparr>entry_task_id := Some v\<rparr>) g
              else g)
       grouped_tasks defaults_map"

text \<open>The table of \<^verbatim>\<open>config.py\<close>.\<close>

definition defaults :: "(string \<times> string) list" where
  "defaults =
     [(''sync'', ''77549''), (''rezie'', ''77549''), (''organization'', ''77549''),
      (''standup'', ''77488''), (''refinement'', ''77548''),
      (''refinement priprava'', ''77548''), (''review'', ''77489''),
      (''review priprava'', ''77489''), (''retro'', ''77489''),
      (''retrospektiva'', ''77489''), (''retrospektiva priprava'', ''77489''),
      (''planning'', ''77491''), (''planning priprava'', ''77491''),
      (''kontrola prostredi'', ''77546''), (''cop'', ''77422''), (''CoP'', ''77422''),
      (''CoP priprava'', ''80565''), (''cop priprava'', ''80565'')]"

text \<open>
  \<^verbatim>\<open>
  def compute_totals(tasks_results):
      total_delta_work = sum(tr.delta_seconds for tr in tasks_results
                             if not tr.desc.startswith("#"))
      total_delta_free = sum(tr.delta_seconds for tr in tasks_results
                             if tr.desc.startswith("#"))
      return total_delta_work, total_delta_free
  \<close>
\<close>

definition compute_totals :: "TaskResult list \<Rightarrow> int \<times> int" where
  "compute_totals tasks_results =
     (py_sum (map delta_seconds (filter (\<lambda>tr. \<not> startswith_hash (desc tr)) tasks_results)),
      py_sum (map delta_seconds (filter (\<lambda>tr. startswith_hash (desc tr)) tasks_results)))"

section \<open>The summary\<close>

text \<open>\<^verbatim>\<open>str(n)\<close> on an integer: its decimal digits.\<close>

definition digit_char :: "nat \<Rightarrow> char" where
  "digit_char n = ''0123456789'' ! n"

fun str_nat :: "nat \<Rightarrow> string" where
  "str_nat n = (if n < 10 then [digit_char n] else str_nat (n div 10) @ [digit_char (n mod 10)])"

definition str_int :: "int \<Rightarrow> string" where
  "str_int i = (if i < 0 then CHR ''-'' # str_nat (nat (- i)) else str_nat (nat i))"

text \<open>
  \<^verbatim>\<open>str(x)\<close> on a float that is a multiple of a quarter (below \<open>10\<^sup>1\<^sup>6\<close>, where Python prints
  all digits): the integer part, a point, and the fraction \<^verbatim>\<open>0\<close>, \<^verbatim>\<open>25\<close>, \<^verbatim>\<open>5\<close> or \<^verbatim>\<open>75\<close>.
\<close>

definition str_float :: "rat \<Rightarrow> string" where
  "str_float x =
     (let a = \<bar>x\<bar>; whole = \<lfloor>a\<rfloor>; quarters = \<lfloor>(a - of_int whole) * 4\<rfloor> in
      (if x < 0 then ''-'' else []) @ str_int whole @ ''.'' @
      (if quarters = 0 then ''0'' else if quarters = 1 then ''25''
       else if quarters = 2 then ''5'' else ''75''))"

text \<open>\<^verbatim>\<open>sep.join(xs)\<close>.\<close>

fun join_with :: "string \<Rightarrow> string list \<Rightarrow> string" where
  "join_with sep [] = []"
| "join_with sep [x] = x"
| "join_with sep (x # y # ys) = x @ sep @ join_with sep (y # ys)"

text \<open>\<^verbatim>\<open>", ".join(sorted(values.get("desc", [])))\<close>.\<close>

definition joined_desc :: "entry \<Rightarrow> string" where
  "joined_desc values = join_with '', '' (sorted_list_of_set (entry_desc values))"

text \<open>
  The log file is opened with mode \<^verbatim>\<open>"a"\<close>: every write goes to the end of the file. The
  file is its content; \<open>fh_write\<close> is one call of \<^verbatim>\<open>fh.write\<close>.
\<close>

definition fh_write :: "string \<Rightarrow> string \<Rightarrow> string" where
  "fh_write fh text = fh @ text"

definition EIGHT_HOURS_IN_MINS :: int where
  "EIGHT_HOURS_IN_MINS = 8 * 60"

text \<open>
  The body of the loop over the buckets:
  \<^verbatim>\<open>
  for task, values in grouped_tasks.items():
      if not task.startswith("#"):
          total_rounded_hours += float(values.get("rounded_hours", 0))
      joined_desc = ", ".join(sorted(values.get("desc", [])))
      if not task.startswith("#"):
          text = (joined_desc
                  if values.get("task_id") is None or joined_desc == values.get("task_id")
                  else f"{values.get('task_id')} {joined_desc}")
      else:
          text = joined_desc if joined_desc == task else f"{task} {joined_desc}"
      fh.write(f"{values['task_total_mins']} = {values['task_total_hours']}h "
               f"{values['task_total_rest']}m ~ {values['rounded_hours']}h: {text}\n")
  \<close>
  The state of the loop is the running sum and the file.
\<close>

definition bucket_text :: "string \<Rightarrow> entry \<Rightarrow> string" where
  "bucket_text task values =
     (if \<not> startswith_hash task
      then (if entry_task_id values = None \<or> Some (joined_desc values) = entry_task_id values
            then joined_desc values
            else the (entry_task_id values) @ '' '' @ joined_desc values)
      else (if joined_desc values = task then joined_desc values
            else task @ '' '' @ joined_desc values))"

definition bucket_line :: "string \<Rightarrow> entry \<Rightarrow> string" where
  "bucket_line task values =
     str_int (task_total_mins values) @ '' = '' @ str_int (task_total_hours values) @ ''h '' @
     str_int (task_total_rest values) @ ''m ~ '' @ str_float (rounded_hours values) @ ''h: '' @
     bucket_text task values @ [newline]"

definition summary_step :: "rat \<times> string \<Rightarrow> string \<times> entry \<Rightarrow> rat \<times> string" where
  "summary_step st kv =
     (case (st, kv) of ((total_rounded_hours, fh), (task, values)) \<Rightarrow>
        ((if \<not> startswith_hash task then total_rounded_hours + rounded_hours values
          else total_rounded_hours),
         fh_write fh (bucket_line task values)))"

text \<open>The remark on a day that is on target: the source's literal (the characters 197 and
  161 stand before \<^verbatim>\<open>ul-nul\<close>).\<close>

definition on_target_remark :: string where
  "on_target_remark = ''working '' @ [CHR 0xC5, CHR 0xA1] @ ''ul-nul''"

text \<open>
  \<^verbatim>\<open>
  def append_result(path, grouped_tasks, total_delta_work, total_delta_free):
      with path.open("a", encoding="utf-8") as fh:
          fh.write("\n\nSummary:\n")
          total_rounded_hours = 0.0
          for task, values in grouped_tasks.items(): ...
          fh.write("\n")
          total_mins = int((total_delta_work + total_delta_free) / 60)
          total_hours = total_mins // 60
          total_rest = total_mins % 60
          total_delta_work_mins = int(total_delta_work / 60)
          total_delta_free_mins = int(total_delta_free / 60)
          total_delta_work_hours = total_delta_work_mins // 60
          total_delta_free_hours = total_delta_free_mins // 60
          total_delta_work_rest = total_delta_work_mins % 60
          total_delta_free_rest = total_delta_free_mins % 60
          saldo_mins = int(abs(total_rounded_hours * 60 - EIGHT_HOURS_IN_MINS))
          is_saldo_ge_zero = total_delta_work_mins >= EIGHT_HOURS_IN_MINS
          saldo_hours = saldo_mins // 60
          saldo_rest = saldo_mins % 60
          sign = "" if is_saldo_ge_zero else "-"
          fh.write(f"total: {total_hours}h {total_rest}m ({total_mins})\n")
          fh.write(f"total work: {total_delta_work_hours}h {total_delta_work_rest}m "
                   f"({total_delta_work_mins})\n")
          fh.write(f"total work rounded hours: {total_rounded_hours}\n")
          fh.write(f"total free:  {total_delta_free_hours}h {total_delta_free_rest}m "
                   f"({total_delta_free_mins})\n")
          fh.write(f"saldo: {sign}{saldo_hours}h {saldo_rest}m ({sign}{saldo_mins})\n")
          if saldo_mins == 0:
              fh.write("working ..ul-nul\n")
          elif sign == "":
              fh.write("working too much\n")
          else:
              fh.write("working too little\n")
          fh.write("already parsed")
  \<close>
  The first argument of the model is the content of the file at \<^verbatim>\<open>path\<close> before the call
  (empty for a file that is not there: mode \<^verbatim>\<open>"a"\<close> creates it), the result its content
  after.
\<close>

definition append_result :: "string \<Rightarrow> (string \<times> entry) list \<Rightarrow> int \<Rightarrow> int \<Rightarrow> string" where
  "append_result file grouped_tasks total_delta_work total_delta_free =
     (let fh = fh_write file ([newline, newline] @ ''Summary:'' @ [newline]);
          (total_rounded_hours, fh) = foldl summary_step (0, fh) grouped_tasks;
          fh = fh_write fh [newline];
          total_mins = py_trunc (of_int (total_delta_work + total_delta_free) / 60);
          total_hours = total_mins div 60;
          total_rest = total_mins mod 60;
          total_delta_work_mins = py_trunc (of_int total_delta_work / 60);
          total_delta_free_mins = py_trunc (of_int total_delta_free / 60);
          total_delta_work_hours = total_delta_work_mins div 60;
          total_delta_free_hours = total_delta_free_mins div 60;
          total_delta_work_rest = total_delta_work_mins mod 60;
          total_delta_free_rest = total_delta_free_mins mod 60;
          saldo_mins = py_trunc \<bar>total_rounded_hours * 60 - of_int EIGHT_HOURS_IN_MINS\<bar>;
          is_saldo_ge_zero = (total_delta_work_mins \<ge> EIGHT_HOURS_IN_MINS);
          saldo_hours = saldo_mins div 60;
          saldo_rest = saldo_mins mod 60;
          sign = (if is_saldo_ge_zero then [] else ''-'');
          fh = fh_write fh (''total: '' @ str_int total_hours @ ''h '' @ str_int total_rest @
                 ''m ('' @ str_int total_mins @ '')'' @ [newline]);
          fh = fh_write fh (''total work: '' @ str_int total_delta_work_hours @ ''h '' @
                 str_int total_delta_work_rest @ ''m ('' @ str_int total_delta_work_mins @
                 '')'' @ [newline]);
          fh = fh_write fh (''total work rounded hours: '' @ str_float total_rounded_hours @
                 [newline]);
          fh = fh_write fh (''total free:  '' @ str_int total_delta_free_hours @ ''h '' @
                 str_int total_delta_free_rest @ ''m ('' @ str_int total_delta_free_mins @
                 '')'' @ [newline]);
          fh = fh_write fh (''saldo: '' @ sign @ str_int saldo_hours @ ''h '' @
                 str_int saldo_rest @ ''m ('' @ sign @ str_int saldo_mins @ '')'' @ [newline]);
          fh = (if saldo_mins = 0 then fh_write fh (on_target_remark @ [newline])
                else if sign = [] then fh_write fh (''working too much'' @ [newline])
                else fh_write fh (''working too little'' @ [newline]))
      in fh_write fh ''already parsed'')"

section \<open>Reading the file and the whole run\<close>

text \<open>
  The lines of a text file as Python's iteration over the open file yields them: each
  line with its line feed, the last one possibly without. (The content is the text after
  Python's translation of line ends.)
\<close>

fun file_lines :: "string \<Rightarrow> string list" where
  "file_lines [] = []"
| "file_lines (c # cs) =
     (if c = newline then [c] # file_lines cs
      else (case file_lines cs of [] \<Rightarrow> [[c]] | l # ls \<Rightarrow> (c # l) # ls))"

text \<open>\<^verbatim>\<open>line.rstrip("\n")\<close>.\<close>

definition rstrip_newline :: "string \<Rightarrow> string" where
  "rstrip_newline s = rev (dropWhile (\<lambda>c. c = newline) (rev s))"

text \<open>
  \<^verbatim>\<open>
  def get_lines(path):
      if not path.exists():
          raise FileNotFoundError(path)
      with path.open("r", encoding="utf-8") as fh:
          return [line.rstrip("\n") for line in fh if line.strip()]
  \<close>
  The file at \<^verbatim>\<open>path\<close> is \<open>None\<close> when it does not exist.
\<close>

definition get_lines :: "string option \<Rightarrow> error + string list" where
  "get_lines file =
     (case file of
        None \<Rightarrow> Inl FileNotFoundError
      | Some content \<Rightarrow>
          Inr (map rstrip_newline (filter (\<lambda>line. strip line \<noteq> []) (file_lines content))))"

text \<open>
  \<^verbatim>\<open>
  def is_already_parsed(lines):
      if not lines:
          return False
      is_parsed = lines[-1].strip() == "already parsed"
      return is_parsed
  \<close>
\<close>

definition is_already_parsed :: "string list \<Rightarrow> bool" where
  "is_already_parsed lines =
     (if lines = [] then False else strip (last lines) = ''already parsed'')"

text \<open>A time entry created at the remote service.\<close>

record time_entry =
  issue_id :: string
  spent_on :: string
  hours :: rat
  comments :: string

text \<open>\<^verbatim>\<open>date.strftime("%Y-%m-%d")\<close>, for a year of four digits.\<close>

definition two_digits :: "int \<Rightarrow> string" where
  "two_digits n = (if n < 10 then ''0'' @ str_int n else str_int n)"

definition strftime_ymd :: "datetime \<Rightarrow> string" where
  "strftime_ymd d = str_int (year d) @ ''-'' @ two_digits (month d) @ ''-'' @ two_digits (day d)"

text \<open>
  \<^verbatim>\<open>
  def send_time_entries(grouped_tasks, redmine_client, date):
      result_date = date.strftime("%Y-%m-%d")
      for grouped_task in grouped_tasks.values():
          task_id = grouped_task.get("task_id")
          if task_id and grouped_task.get("rounded_hours", 0) > 0:
              desc_text = ", ".join(sorted(grouped_task.get("desc", [])))
              hours = float(grouped_task["rounded_hours"])
              redmine_client.time_entry.create(issue_id=task_id, spent_on=result_date,
                                               hours=hours, comments=desc_text)
  \<close>
  The result is the list of the entries created, in order.
\<close>

definition send_time_entries :: "(string \<times> entry) list \<Rightarrow> datetime \<Rightarrow> time_entry list" where
  "send_time_entries grouped_tasks date =
     concat (map (\<lambda>(key, grouped_task).
        (case entry_task_id grouped_task of
           None \<Rightarrow> []
         | Some tid \<Rightarrow>
             if tid \<noteq> [] \<and> rounded_hours grouped_task > 0
             then [\<lparr>issue_id = tid, spent_on = strftime_ymd date,
                    hours = rounded_hours grouped_task,
                    comments = joined_desc grouped_task\<rparr>]
             else [])) grouped_tasks)"

text \<open>\<^verbatim>\<open>str.lower()\<close> on the letters A to Z (no other character becomes \<^verbatim>\<open>y\<close>).\<close>

definition lower_char :: "char \<Rightarrow> char" where
  "lower_char c =
     (let n = (of_char c :: nat) in if 65 \<le> n \<and> n \<le> 90 then char_of (n + 32) else c)"

text \<open>
  What a run can see and change: the log file of the day (\<open>None\<close> when it does not exist),
  the answer the user types at the prompt, and the time entries created at the remote
  service so far.
\<close>

record world =
  log_file :: "string option"
  answer :: string
  remote_entries :: "time_entry list"

text \<open>
  \<^verbatim>\<open>
  def main():
      ...
      lines = get_lines(path)
      if is_already_parsed(lines):
          return
      timestamps = get_timestamps(today, lines)
      deltas = get_deltas(timestamps)
      tasks_results = get_tasks_results(deltas, lines)
      total_delta_work, total_delta_free = compute_totals(tasks_results)
      grouped_tasks = group_tasks(tasks_results)
      apply_defaults(grouped_tasks, defaults)
      append_result(path, grouped_tasks, total_delta_work, total_delta_free)
      answer = input("Send on api? (y/n): ")
      if answer.strip().lower() != "y":
          return
      redmine = create_redmine_client()
      send_time_entries(grouped_tasks, redmine, today)
  \<close>
  \<open>today\<close> is the date of the log (the current time minus the days of \<^verbatim>\<open>--days-back\<close>). An
  uncaught exception ends the run (\<open>Inl\<close>); the log output is not modelled.
\<close>

definition main :: "datetime \<Rightarrow> world \<Rightarrow> error + world" where
  "main today w =
     (case get_lines (log_file w) of
        Inl e \<Rightarrow> Inl e
      | Inr lines \<Rightarrow>
          if is_already_parsed lines then Inr w
          else
            (case get_timestamps today lines of
               Inl e \<Rightarrow> Inl e
             | Inr timestamps \<Rightarrow>
                 (let deltas = get_deltas timestamps;
                      tasks_results = get_tasks_results deltas lines;
                      (total_delta_work, total_delta_free) = compute_totals tasks_results;
                      grouped_tasks = apply_defaults (group_tasks tasks_results) defaults;
                      w = w\<lparr>log_file := Some (append_result (the (log_file w)) grouped_tasks
                                                 total_delta_work total_delta_free)\<rparr>
                  in if map lower_char (strip (answer w)) \<noteq> ''y'' then Inr w
                     else Inr (w\<lparr>remote_entries := remote_entries w @
                                  send_time_entries grouped_tasks today\<rparr>))))"

section \<open>The line pattern without backtracking\<close>

text \<open>
  The definitions of this section are not the program's: they describe what the
  backtracking matcher of \<open>parse_line\<close> computes, and lemma \<open>parse_line_direct_eq\<close> proves
  that it does. \<open>tail_ok\<close> holds of a text with no line feed but possibly a last one:
  the texts \<^verbatim>\<open>(.*)$\<close> matches. \<open>time_prefix\<close> splits a time \<^verbatim>\<open>\d{1,2}:\d{2}\<close> off the front.
\<close>

definition tail_ok :: "string \<Rightarrow> bool" where
  "tail_ok s = (newline \<notin> set (butlast s))"

fun time_prefix :: "string \<Rightarrow> (string \<times> string) option" where
  "time_prefix (d1 # d2 # c3 # c4 # c5 # r) =
     (if is_digit d1 \<and> is_digit d2 \<and> c3 = CHR '':'' \<and> is_digit c4 \<and> is_digit c5
      then Some ([d1, d2, c3, c4, c5], r)
      else if is_digit d1 \<and> d2 = CHR '':'' \<and> is_digit c3 \<and> is_digit c4
      then Some ([d1, d2, c3, c4], c5 # r) else None)"
| "time_prefix [d1, d2, c3, c4] =
     (if is_digit d1 \<and> d2 = CHR '':'' \<and> is_digit c3 \<and> is_digit c4
      then Some ([d1, d2, c3, c4], []) else None)"
| "time_prefix _ = None"

definition tail_match :: "string \<Rightarrow> string option" where
  "tail_match s = (let u = dropWhile is_space s in
      if tail_ok u then Some (takeWhile not_newline u) else None)"

definition five_digits :: "string \<Rightarrow> bool" where
  "five_digits s = (5 \<le> length s \<and> list_all is_digit (take 5 s))"

definition after_task_id :: "string \<Rightarrow> string \<Rightarrow> (string \<times> string option \<times> string) option" where
  "after_task_id t u =
     (if five_digits u \<and> tail_match (drop 5 u) \<noteq> None
      then map_option (\<lambda>d. (t, Some (take 5 u), d)) (tail_match (drop 5 u))
      else map_option (\<lambda>d. (t, None, d)) (tail_match u))"

definition parse_line_direct :: "string \<Rightarrow> (string \<times> string option \<times> string) option" where
  "parse_line_direct line =
     (case time_prefix (dropWhile is_space line) of
        None \<Rightarrow> None
      | Some (t, r1) \<Rightarrow>
          (case r1 of
             [] \<Rightarrow> None
           | c # cs \<Rightarrow> if is_space c then after_task_id t (dropWhile is_space cs) else None))"

section \<open>Names for the statements about the summary\<close>

text \<open>
  These definitions are not the program's either; the statements about \<open>append_result\<close>
  are written with them. \<open>rounded_sum\<close> is the sum of the rounded hours over the buckets
  whose key does not start with \<^verbatim>\<open>#\<close>; \<open>final_line\<close> is the text after the last line feed;
  \<open>work_minutes\<close> is the work total in whole minutes; \<open>saldo_sign\<close>, \<open>saldo_line\<close> and
  \<open>closing_remark\<close> are the sign, the line and the remark a saldo of the given minutes
  gets beside the given work minutes.
\<close>

definition rounded_sum :: "(string \<times> entry) list \<Rightarrow> rat" where
  "rounded_sum g =
     sum_list (map (\<lambda>(task, values). rounded_hours values)
                   (filter (\<lambda>(task, values). \<not> startswith_hash task) g))"

definition final_line :: "string \<Rightarrow> string" where
  "final_line s = rev (takeWhile (\<lambda>c. c \<noteq> newline) (rev s))"

definition work_minutes :: "int \<Rightarrow> int" where
  "work_minutes total_delta_work = py_trunc (of_int total_delta_work / 60)"

definition saldo_sign :: "int \<Rightarrow> string" where
  "saldo_sign work_mins = (if work_mins < 480 then ''-'' else [])"

definition saldo_line :: "int \<Rightarrow> int \<Rightarrow> string" where
  "saldo_line saldo work_mins =
     ''saldo: '' @ saldo_sign work_mins @ str_int (saldo div 60) @ ''h '' @
     str_int (saldo mod 60) @ ''m ('' @ saldo_sign work_mins @ str_int saldo @ '')'' @ [newline]"

definition closing_remark :: "int \<Rightarrow> int \<Rightarrow> string" where
  "closing_remark saldo work_mins =
     (if saldo = 0 then on_target_remark
      else if 480 \<le> work_mins then ''working too much'' else ''working too little'')"

text \<open>\<open>with_default\<close>: a bucket after the table of defaults was applied, for the proof
  about \<open>apply_defaults\<close>.\<close>

definition with_default :: "(string \<times> string) list \<Rightarrow> string \<times> entry \<Rightarrow> string \<times> entry" where
  "with_default defaults_map kv =
     (case kv of (key, e) \<Rightarrow>
        (key, case map_of defaults_map key of
                None \<Rightarrow> e
              | Some v \<Rightarrow> e\<lparr>entry_task_id := Some v\<rparr>))"

text \<open>\<open>time_fields\<close>: the hour and the minute \<open>get_timestamps\<close> reads from a time string,
  \<open>None\<close> where its guarded conversion fails.\<close>

definition time_fields :: "string \<Rightarrow> (int \<times> int) option" where
  "time_fields time_str =
     (case map py_int (split_on (CHR '':'') time_str) of
        [Some h, Some mi] \<Rightarrow> Some (h, mi)
      | _ \<Rightarrow> None)"

text \<open>\<open>nonblank_lines\<close>: the lines of a file that are not blank, as the file has them.\<close>

definition nonblank_lines :: "string \<Rightarrow> string list" where
  "nonblank_lines content = filter (\<lambda>line. strip line \<noteq> []) (file_lines content)"




text \<open>\<open>reassemble\<close>: the line written again from its three fields, \<^verbatim>\<open><time> <task_id?> <desc>\<close>:
  the time, the task id when there is one, and the description, with one blank between.\<close>

definition reassemble :: "string \<Rightarrow> string option \<Rightarrow> string \<Rightarrow> string" where
  "reassemble time_str tid d =
     time_str @ '' '' @ (case tid of None \<Rightarrow> [] | Some t \<Rightarrow> t @ '' '') @ d"

lemma orelse_simps [simp]: "orelse None b = b" "orelse (Some r) b = Some r"
  by (simp_all add: orelse_def)

lemma colon_not_digit [simp]: "\<not> is_digit (CHR '':'')"
  by (simp add: is_digit_def)

lemma space_not_digit: "is_space c \<Longrightarrow> \<not> is_digit c"
  by (auto simp: is_space_def is_digit_def Let_def)

lemma newline_is_space [simp]: "is_space newline"
  by (simp add: is_space_def newline_def)

lemma re_star_greedy:
  assumes "\<And>s. k s \<noteq> None \<Longrightarrow> k (dropWhile p s) \<noteq> None"
  shows "re_star p k s = k (dropWhile p s)"
proof (induction s)
  case Nil
  show ?case by simp
next
  case (Cons c cs)
  show ?case
  proof (cases "p c")
    case False
    then show ?thesis by simp
  next
    case True
    show ?thesis
    proof (cases "k (dropWhile p cs)")
      case (Some r)
      with True Cons show ?thesis by simp
    next
      case None
      have "k (c # cs) = None"
      proof (rule ccontr)
        assume "k (c # cs) \<noteq> None"
        from assms [OF this] True None show False by simp
      qed
      with True Cons None show ?thesis by simp
    qed
  qed
qed

lemma re_time:
  "re_digits_1_2 (re_class (\<lambda>c. c = CHR '':'') (re_digits_2 k)) s =
     (case time_prefix s of None \<Rightarrow> None | Some (t, r) \<Rightarrow> k r)"
proof (cases s rule: time_prefix.cases)
  case (1 d1 d2 c3 c4 c5 r)
  then show ?thesis
    by (auto simp: re_digits_1_2_def re_digits_2_def re_class_def orelse_def split: list.splits option.splits)
next
  case (2 d1 d2 c3 c4)
  then show ?thesis
    by (auto simp: re_digits_1_2_def re_digits_2_def re_class_def orelse_def split: list.splits)
qed (simp_all add: re_digits_1_2_def re_digits_2_def re_class_def)

lemma tail_ok_Cons: "tail_ok (c # cs) \<Longrightarrow> tail_ok cs"
  by (cases cs) (auto simp: tail_ok_def)

lemma tail_ok_dropWhile: "tail_ok s \<Longrightarrow> tail_ok (dropWhile p s)"
  by (induction s) (auto dest: tail_ok_Cons)

lemma tail_ok_drop: "tail_ok s \<Longrightarrow> tail_ok (drop n s)"
proof (induction s arbitrary: n)
  case Nil
  then show ?case by simp
next
  case (Cons c cs)
  then show ?case
    by (cases n) (auto dest: tail_ok_Cons)
qed

lemma re_star_desc:
  "re_star not_newline (\<lambda>r4. if at_end r4 then Some (f r4) else None) s =
     (if tail_ok s then Some (f (dropWhile not_newline s)) else None)"
proof (induction s)
  case Nil
  show ?case by (simp add: at_end_def tail_ok_def)
next
  case (Cons c cs)
  show ?case
  proof (cases "c = newline")
    case True
    then have nn: "\<not> not_newline c"
      by (simp add: not_newline_def)
    have "at_end (c # cs) = tail_ok (c # cs)"
      using True by (cases cs) (auto simp: at_end_def tail_ok_def)
    with nn show ?thesis by simp
  next
    case False
    have ok: "tail_ok (c # cs) = tail_ok cs"
      using False by (cases cs) (auto simp: tail_ok_def)
    have nn: "not_newline c"
      using False by (simp add: not_newline_def)
    have ne: "\<not> at_end (c # cs)"
      using False by (simp add: at_end_def)
    show ?thesis
      using Cons nn ne ok by simp
  qed
qed

lemma matched_dropWhile: "matched s (dropWhile p s) = takeWhile p s"
proof -
  have "length (takeWhile p s) + length (dropWhile p s) = length s"
    by (induction s) auto
  then have "length s - length (dropWhile p s) = length (takeWhile p s)"
    by arith
  then show ?thesis
    using takeWhile_eq_take [of p s] by (simp add: matched_def)
qed

lemma re_tail:
  "re_star is_space (\<lambda>r3. re_star not_newline
       (\<lambda>r4. if at_end r4 then Some (g (matched r3 r4)) else None) r3) s =
   map_option g (tail_match s)"
proof -
  let ?k = "\<lambda>r3. if tail_ok r3 then Some (g (takeWhile not_newline r3)) else None"
  have "re_star is_space (\<lambda>r3. re_star not_newline
       (\<lambda>r4. if at_end r4 then Some (g (matched r3 r4)) else None) r3) s = re_star is_space ?k s"
    by (simp add: re_star_desc matched_dropWhile cong: if_cong)
  also have "\<dots> = ?k (dropWhile is_space s)"
    by (rule re_star_greedy) (auto dest: tail_ok_dropWhile split: if_splits)
  finally show ?thesis
    by (simp add: tail_match_def Let_def)
qed

lemma dropWhile_no_space: "s = [] \<or> \<not> is_space (hd s) \<Longrightarrow> dropWhile is_space s = s"
  by (cases s) auto

lemma dropWhile_space_idem: "dropWhile is_space (dropWhile is_space s) = dropWhile is_space s"
  by (induction s) auto

lemma tail_match_drop:
  assumes "tail_match s \<noteq> None" and "s = [] \<or> \<not> is_space (hd s)"
  shows "tail_match (drop n s) \<noteq> None"
proof -
  from assms have "tail_ok s"
    by (simp add: tail_match_def dropWhile_no_space split: if_splits)
  then have "tail_ok (dropWhile is_space (drop n s))"
    by (intro tail_ok_dropWhile tail_ok_drop)
  then show ?thesis
    by (simp add: tail_match_def)
qed

lemma time_prefix_digit: "time_prefix s = Some (t, r) \<Longrightarrow> \<exists>d cs. s = d # cs \<and> is_digit d"
  by (cases s rule: time_prefix.cases) (auto split: if_splits)

lemma time_prefix_append: "time_prefix s = Some (t, r) \<Longrightarrow> s = t @ r"
  by (cases s rule: time_prefix.cases) (auto split: if_splits)

lemma time_prefix_shape: "time_prefix s = Some (t, r) \<Longrightarrow>
   t \<noteq> [] \<and> \<not> is_space (hd t) \<and> \<not> is_space (last t)"
  by (cases s rule: time_prefix.cases) (auto split: if_splits dest: space_not_digit)

lemma strip_time:
  assumes "list_all is_space w" and "t \<noteq> []" and "\<not> is_space (hd t)" and "\<not> is_space (last t)"
  shows "strip (w @ t) = t"
proof -
  have "dropWhile is_space (w @ t) = dropWhile is_space t"
    using assms(1) by (intro dropWhile_append2) (simp add: list_all_iff)
  also have "\<dots> = t"
    using assms(3) by (simp add: dropWhile_no_space)
  finally have l: "lstrip (w @ t) = t"
    by (simp add: lstrip_def)
  have "hd (rev t) = last t"
    using assms(2) by (simp add: hd_rev)
  then have "dropWhile is_space (rev t) = rev t"
    using assms(4) by (simp add: dropWhile_no_space)
  then show ?thesis
    by (simp add: strip_def rstrip_def l)
qed

lemma tail_match_dropWhile: "tail_match (dropWhile is_space s) = tail_match s"
  by (simp add: tail_match_def dropWhile_space_idem)

lemma re_opt_eq:
  "re_opt_task_id (\<lambda>tid s. map_option (\<lambda>d. (t, tid, d)) (tail_match s)) u = after_task_id t u"
  by (auto simp: re_opt_task_id_def after_task_id_def five_digits_def)

lemma five_digits_space: "is_space c \<Longrightarrow> \<not> five_digits (c # cs)"
  by (auto simp: five_digits_def dest: space_not_digit)

lemma after_task_id_greedy:
  assumes "after_task_id t s \<noteq> None"
  shows "after_task_id t (dropWhile is_space s) \<noteq> None"
proof (cases "s = [] \<or> \<not> is_space (hd s)")
  case True
  with assms show ?thesis by (simp add: dropWhile_no_space)
next
  case False
  then obtain c cs where s: "s = c # cs" and c: "is_space c"
    by (cases s) auto
  from assms s c have "tail_match s \<noteq> None"
    by (simp add: after_task_id_def five_digits_space)
  then have "tail_match (dropWhile is_space s) \<noteq> None"
    by (simp add: tail_match_dropWhile)
  then show ?thesis
    by (auto simp: after_task_id_def)
qed

lemma re_sep:
  "re_plus is_space (re_opt_task_id (\<lambda>tid s. map_option (\<lambda>d. (t, tid, d)) (tail_match s))) r1 =
     (case r1 of [] \<Rightarrow> None
      | c # cs \<Rightarrow> if is_space c then after_task_id t (dropWhile is_space cs) else None)"
proof -
  have "re_star is_space (after_task_id t) cs = after_task_id t (dropWhile is_space cs)" for cs
    by (rule re_star_greedy) (rule after_task_id_greedy)
  moreover have "re_opt_task_id (\<lambda>tid s. map_option (\<lambda>d. (t, tid, d)) (tail_match s)) = after_task_id t"
    by (rule ext) (rule re_opt_eq)
  ultimately show ?thesis
    by (simp add: re_plus_def re_class_def split: list.splits)
qed

lemma matched_append: "matched (a @ b) b = a"
  by (simp add: matched_def)

lemma parse_line_direct_eq: "parse_line line = parse_line_direct line"
proof -
  let ?k = "\<lambda>r1. re_plus is_space (re_opt_task_id (\<lambda>task_id.
         re_star is_space (\<lambda>r3.
           re_star not_newline (\<lambda>r4.
             if at_end r4
             then Some (strip (matched line r1), task_id, matched r3 r4)
             else None) r3))) r1"
  let ?K0 = "re_digits_1_2 (re_class (\<lambda>c. c = CHR '':'') (re_digits_2 ?k))"
  have K0: "?K0 s = (case time_prefix s of None \<Rightarrow> None | Some (t, r) \<Rightarrow> ?k r)" for s
    by (rule re_time)
  have "parse_line line = re_star is_space ?K0 line"
    by (simp add: parse_line_def)
  also have "\<dots> = ?K0 (dropWhile is_space line)"
  proof (rule re_star_greedy)
    fix s
    assume ok: "?K0 s \<noteq> None"
    then obtain t r where "time_prefix s = Some (t, r)"
      unfolding K0 by (auto split: option.splits)
    then obtain d cs where "s = d # cs" and "is_digit d"
      by (blast dest: time_prefix_digit)
    then have "dropWhile is_space s = s"
      using space_not_digit by auto
    with ok show "?K0 (dropWhile is_space s) \<noteq> None"
      by simp
  qed
  also have "\<dots> = parse_line_direct line"
  proof (cases "time_prefix (dropWhile is_space line)")
    case None
    then show ?thesis
      unfolding K0 by (simp add: parse_line_direct_def)
  next
    case (Some a)
    obtain t r1 where a: "a = (t, r1)"
      by (cases a)
    have tp: "time_prefix (dropWhile is_space line) = Some (t, r1)"
      using Some a by simp
    have "line = takeWhile is_space line @ dropWhile is_space line"
      by simp
    also have "dropWhile is_space line = t @ r1"
      using tp by (rule time_prefix_append)
    finally have "matched line r1 = takeWhile is_space line @ t"
      using matched_append [of "takeWhile is_space line @ t" r1] by simp
    moreover have "list_all is_space (takeWhile is_space line)"
      by (simp add: list_all_iff) (meson set_takeWhileD)
    ultimately have T: "strip (matched line r1) = t"
      using time_prefix_shape [OF tp] by (simp add: strip_time)
    have inner: "re_star is_space (\<lambda>r3.
           re_star not_newline (\<lambda>r4.
             if at_end r4 then Some (t, tid, matched r3 r4) else None) r3) s
        = map_option (\<lambda>d. (t, tid, d)) (tail_match s)" for tid :: "string option" and s
      using re_tail [of "\<lambda>d. (t, tid, d)" s] by simp
    have "?k r1 = (case r1 of [] \<Rightarrow> None
        | c # cs \<Rightarrow> if is_space c then after_task_id t (dropWhile is_space cs) else None)"
      unfolding T inner by (rule re_sep)
    then show ?thesis
      unfolding K0 by (simp add: parse_line_direct_def tp)
  qed
  finally show ?thesis .
qed

section \<open>Task results and their deltas\<close>

text \<open>What \<open>get_tasks_results\<close> emits: the lines are paired with the deltas by position in
  the list of all lines, and a pair is kept when its line parses.\<close>

lemma tasks_results_from_zip:
  "tasks_results_from i deltas lines =
     List.map_filter
       (\<lambda>(d, line). case parse_line line of
           None \<Rightarrow> None
         | Some (_, tid, ds) \<Rightarrow>
             Some \<lparr>task_id = tid, delta_seconds = total_seconds d, desc = ds\<rparr>)
       (zip (drop i deltas) lines)"
proof (induction lines arbitrary: i)
  case Nil
  show ?case by simp
next
  case (Cons line lines)
  show ?case
  proof (cases "i < length deltas")
    case True
    then have "drop i deltas = deltas ! i # drop (Suc i) deltas"
      by (simp add: Cons_nth_drop_Suc)
    with True Cons show ?thesis
      by (auto split: option.splits)
  next
    case False
    with Cons show ?thesis
      by (auto split: option.splits)
  qed
qed

lemma get_tasks_results_zip:
  "get_tasks_results deltas lines =
     List.map_filter
       (\<lambda>(d, line). case parse_line line of
           None \<Rightarrow> None
         | Some (_, tid, ds) \<Rightarrow>
             Some \<lparr>task_id = tid, delta_seconds = total_seconds d, desc = ds\<rparr>)
       (zip deltas lines)"
  by (simp add: get_tasks_results_def tasks_results_from_zip)

text \<open>
  Claim C1. The result emitted for a line should carry the time from that line's own
  timestamp to the next timestamp. The code indexes the deltas by the position of the line
  among all lines, while the deltas are numbered among the matching lines only. On the
  four lines \<^verbatim>\<open>notes\<close>, \<^verbatim>\<open>08:00 a\<close>, \<^verbatim>\<open>09:00 b\<close>, \<^verbatim>\<open>09:30 c\<close> the timestamps are 08:00, 09:00
  and 09:30 and the deltas 3600 and 1800 seconds; the only result emitted is the one of
  \<^verbatim>\<open>08:00 a\<close>, and it carries 1800 seconds (the time from 09:00 to 09:30) where the time
  from 08:00 to 09:00 is 3600 seconds; \<^verbatim>\<open>09:00 b\<close> gets no result at all.
\<close>

theorem get_tasks_results_skipped_line_shifts_deltas:
  "get_timestamps \<lparr>year = 2026, month = 2, day = 21, hour = 0, minute = 0\<rparr>
      [''notes'', ''08:00 a'', ''09:00 b'', ''09:30 c''] =
     Inr [\<lparr>year = 2026, month = 2, day = 21, hour = 8, minute = 0\<rparr>,
          \<lparr>year = 2026, month = 2, day = 21, hour = 9, minute = 0\<rparr>,
          \<lparr>year = 2026, month = 2, day = 21, hour = 9, minute = 30\<rparr>]
   \<and> get_deltas [\<lparr>year = 2026, month = 2, day = 21, hour = 8, minute = 0\<rparr>,
                 \<lparr>year = 2026, month = 2, day = 21, hour = 9, minute = 0\<rparr>,
                 \<lparr>year = 2026, month = 2, day = 21, hour = 9, minute = 30\<rparr>] = [3600, 1800]
   \<and> get_tasks_results [3600, 1800] [''notes'', ''08:00 a'', ''09:00 b'', ''09:30 c''] =
       [\<lparr>task_id = None, delta_seconds = 1800, desc = ''a''\<rparr>]"
  by code_simp

section \<open>Mappings\<close>




section \<open>Totals\<close>

lemma py_sum_sum_list: "py_sum xs = sum_list xs"
proof -
  have "foldl (+) a xs = a + sum_list xs" for a :: int
    by (induction xs arbitrary: a) simp_all
  then show ?thesis
    by (simp add: py_sum_def)
qed

lemma sum_list_filter_split:
  "sum_list (map f (filter P xs)) + sum_list (map f (filter (\<lambda>x. \<not> P x) xs)) =
     (sum_list (map f xs) :: int)"
  by (induction xs) simp_all

text \<open>
  Claim C4. \<open>compute_totals\<close> returns the pair of the work total, the sum of the seconds of
  the results whose description does not start with \<^verbatim>\<open>#\<close>, and the free total, the sum
  over the results whose description does; the two conditions exclude each other, and
  the two totals add up to the sum of the seconds of all results.
\<close>

theorem compute_totals_work_free:
  "compute_totals trs =
     (sum_list (map delta_seconds (filter (\<lambda>tr. \<not> startswith_hash (desc tr)) trs)),
      sum_list (map delta_seconds (filter (\<lambda>tr. startswith_hash (desc tr)) trs)))
   \<and> fst (compute_totals trs) + snd (compute_totals trs) = sum_list (map delta_seconds trs)"
  using sum_list_filter_split [of delta_seconds "\<lambda>tr. startswith_hash (desc tr)" trs]
  by (simp add: compute_totals_def py_sum_sum_list)

theorem compute_totals_work_free_witness:
  "compute_totals [\<lparr>task_id = None, delta_seconds = 600, desc = ''standup''\<rparr>,
                   \<lparr>task_id = Some ''12345'', delta_seconds = 1800, desc = ''#lunch''\<rparr>,
                   \<lparr>task_id = None, delta_seconds = 60, desc = ''x#''\<rparr>] = (660, 1800)"
  using compute_totals_work_free [of "[\<lparr>task_id = None, delta_seconds = 600, desc = ''standup''\<rparr>,
                   \<lparr>task_id = Some ''12345'', delta_seconds = 1800, desc = ''#lunch''\<rparr>,
                   \<lparr>task_id = None, delta_seconds = 60, desc = ''x#''\<rparr>]"]
  by (simp add: startswith_hash_def)

section \<open>Rounding to quarters of an hour\<close>










section \<open>The summary is appended\<close>

lemma foldl_summary_step:
  "foldl summary_step (r, fh) g =
     (r + rounded_sum g, fh @ concat (map (\<lambda>(task, values). bucket_line task values) g))"
proof (induction g arbitrary: r fh)
  case Nil
  show ?case by (simp add: rounded_sum_def)
next
  case (Cons kv g)
  obtain task vals where kv: "kv = (task, vals)"
    by (cases kv)
  show ?case
    using Cons [of "fst (summary_step (r, fh) kv)" "snd (summary_step (r, fh) kv)"]
    by (simp add: kv summary_step_def fh_write_def rounded_sum_def)
qed

lemma final_line_append:
  "newline \<notin> set t \<Longrightarrow> final_line (pre @ [newline] @ t) = t"
  by (simp add: final_line_def takeWhile_append2) (simp add: takeWhile_eq_all_conv[THEN iffD2] takeWhile_append)

text \<open>What \<open>append_result\<close> writes last: the line of the saldo, the remark and the
  marker.\<close>

lemma append_result_tail:
  "\<exists>pre. append_result file g w f =
      file @ pre @
      saldo_line (py_trunc \<bar>rounded_sum g * 60 - 480\<bar>) (work_minutes w) @
      closing_remark (py_trunc \<bar>rounded_sum g * 60 - 480\<bar>) (work_minutes w) @ [newline] @
      ''already parsed''"
proof -
  define saldo where "saldo = py_trunc \<bar>rounded_sum g * 60 - 480\<bar>"
  define wm where "wm = py_trunc (of_int w / 60)"
  have e: "EIGHT_HOURS_IN_MINS = 480"
    by (simp add: EIGHT_HOURS_IN_MINS_def)
  have sign: "saldo_sign x = (if 480 \<le> x then [] else ''-'')" for x
    by (simp add: saldo_sign_def)
  have nonempty: "((if c then [] else ''-'') = []) = c" for c
    by simp
  have unfolded: "append_result file g w f =
     (let fh = file @ [newline, newline] @ ''Summary:'' @ [newline] @
          concat (map (\<lambda>(task, vals). bucket_line task vals) g) @ [newline] @
          ''total: '' @ str_int (py_trunc (of_int (w + f) / 60) div 60) @ ''h '' @
            str_int (py_trunc (of_int (w + f) / 60) mod 60) @
            ''m ('' @ str_int (py_trunc (of_int (w + f) / 60)) @ '')'' @ [newline] @
          ''total work: '' @ str_int (wm div 60) @ ''h '' @
            str_int (wm mod 60) @ ''m ('' @ str_int wm @ '')'' @ [newline] @
          ''total work rounded hours: '' @ str_float (rounded_sum g) @ [newline] @
          ''total free:  '' @ str_int (py_trunc (of_int f / 60) div 60) @ ''h '' @
            str_int (py_trunc (of_int f / 60) mod 60) @
            ''m ('' @ str_int (py_trunc (of_int f / 60)) @ '')'' @ [newline] @
          saldo_line saldo wm
      in (if saldo = 0 then fh @ on_target_remark @ [newline]
          else if 480 \<le> wm then fh @ ''working too much'' @ [newline]
          else fh @ ''working too little'' @ [newline]) @ ''already parsed'')"
    unfolding append_result_def Let_def foldl_summary_step prod.case fh_write_def
      e of_int_numeral saldo_line_def sign nonempty saldo_def wm_def
    by (simp only: append_assoc add_0)
  define pre where "pre = [newline, newline] @ ''Summary:'' @ [newline] @
          concat (map (\<lambda>(task, vals). bucket_line task vals) g) @ [newline] @
          ''total: '' @ str_int (py_trunc (of_int (w + f) / 60) div 60) @ ''h '' @
            str_int (py_trunc (of_int (w + f) / 60) mod 60) @
            ''m ('' @ str_int (py_trunc (of_int (w + f) / 60)) @ '')'' @ [newline] @
          ''total work: '' @ str_int (wm div 60) @ ''h '' @
            str_int (wm mod 60) @ ''m ('' @ str_int wm @ '')'' @ [newline] @
          ''total work rounded hours: '' @ str_float (rounded_sum g) @ [newline] @
          ''total free:  '' @ str_int (py_trunc (of_int f / 60) div 60) @ ''h '' @
            str_int (py_trunc (of_int f / 60) mod 60) @
            ''m ('' @ str_int (py_trunc (of_int f / 60)) @ '')'' @ [newline]"
  have folded: "append_result file g w f =
      (if saldo = 0 then (file @ pre @ saldo_line saldo wm) @ on_target_remark @ [newline]
       else if 480 \<le> wm then (file @ pre @ saldo_line saldo wm) @ ''working too much'' @ [newline]
       else (file @ pre @ saldo_line saldo wm) @ ''working too little'' @ [newline]) @
      ''already parsed''"
    unfolding unfolded Let_def pre_def by (simp only: append_assoc)
  have "append_result file g w f =
      file @ pre @ saldo_line saldo wm @ closing_remark saldo wm @ [newline] @ ''already parsed''"
    unfolding folded closing_remark_def by (cases "saldo = 0"; cases "480 \<le> wm"; simp)
  then have "append_result file g w f =
      file @ pre @
      saldo_line (py_trunc \<bar>rounded_sum g * 60 - 480\<bar>) (work_minutes w) @
      closing_remark (py_trunc \<bar>rounded_sum g * 60 - 480\<bar>) (work_minutes w) @ [newline] @
      ''already parsed''"
    by (simp only: saldo_def wm_def work_minutes_def)
  then show ?thesis
    by (rule exI [of _ pre])
qed

lemma newline_not_in_marker: "newline \<notin> set ''already parsed''"
  by (simp add: newline_def)

text \<open>
  Claim C10. \<open>append_result\<close> only appends: whatever the file held, its content after the
  call is the content before followed by a block; the block ends with a line feed and the
  text \<^verbatim>\<open>already parsed\<close>, so its final line is that text, with nothing after it.
\<close>

theorem append_result_only_appends:
  "\<exists>block. append_result file g w f = file @ block
      \<and> (\<exists>pre. block = pre @ [newline] @ ''already parsed'')
      \<and> final_line block = ''already parsed''"
proof -
  obtain pre where a: "append_result file g w f =
      file @ pre @
      saldo_line (py_trunc \<bar>rounded_sum g * 60 - 480\<bar>) (work_minutes w) @
      closing_remark (py_trunc \<bar>rounded_sum g * 60 - 480\<bar>) (work_minutes w) @ [newline] @
      ''already parsed''"
    using append_result_tail by blast
  define start where "start = pre @
      saldo_line (py_trunc \<bar>rounded_sum g * 60 - 480\<bar>) (work_minutes w) @
      closing_remark (py_trunc \<bar>rounded_sum g * 60 - 480\<bar>) (work_minutes w)"
  have b: "append_result file g w f = file @ (start @ [newline] @ ''already parsed'')"
    by (simp add: a start_def)
  have "final_line (start @ [newline] @ ''already parsed'') = ''already parsed''"
    using newline_not_in_marker by (rule final_line_append)
  with b show ?thesis by blast
qed

theorem append_result_only_appends_witness:
  "\<exists>block. append_result ''08:00 a'' [] 0 0 = ''08:00 a'' @ block
      \<and> (\<exists>pre. block = pre @ [newline] @ ''already parsed'')
      \<and> final_line block = ''already parsed''"
  by (rule append_result_only_appends)

section \<open>The saldo\<close>







section \<open>Default task ids\<close>

lemma map_other_keys:
  "k \<notin> fst ` set g \<Longrightarrow> map (\<lambda>(key, e). (key, if key = k then f e else e)) g = g"
  by (induction g) auto

lemma alist_modify_distinct:
  "distinct (map fst g) \<Longrightarrow>
     alist_modify k f g = map (\<lambda>(key, e). (key, if key = k then f e else e)) g"
proof (induction g)
  case Nil
  show ?case by simp
next
  case (Cons kv g)
  obtain k' e' where kv: "kv = (k', e')"
    by (cases kv)
  show ?case
  proof (cases "k = k'")
    case True
    with Cons.prems kv have "k \<notin> fst ` set g"
      by auto
    then show ?thesis
      using True by (simp add: kv map_other_keys)
  next
    case False
    with Cons show ?thesis
      by (simp add: kv)
  qed
qed

lemma apply_defaults_map:
  assumes "distinct (map fst g)" and "distinct (map fst dm)"
  shows "apply_defaults g dm = map (with_default dm) g"
  using assms
proof (induction dm arbitrary: g)
  case Nil
  have "map (with_default []) g = g"
    by (induction g) (auto simp: with_default_def)
  then show ?case
    by (simp add: apply_defaults_def)
next
  case (Cons kv dm)
  obtain k v where kv: "kv = (k, v)"
    by (cases kv)
  define g' where "g' = map (\<lambda>(key, e). (key, if key = k then e\<lparr>entry_task_id := Some v\<rparr> else e)) g"
  have keys: "map fst g' = map fst g"
    by (simp add: g'_def split_def comp_def)
  have step: "(if k \<in> set (map fst g)
               then alist_modify k (\<lambda>e. e\<lparr>entry_task_id := Some v\<rparr>) g else g) = g'"
    using Cons.prems(1) by (simp add: g'_def alist_modify_distinct map_other_keys)
  have "apply_defaults g (kv # dm) = apply_defaults g' dm"
    using step by (simp add: apply_defaults_def kv)
  also have "\<dots> = map (with_default dm) g'"
    using Cons.prems by (intro Cons.IH) (simp_all add: keys)
  also have "\<dots> = map (with_default (kv # dm)) g"
  proof -
    have "k \<notin> fst ` set dm"
      using Cons.prems(2) by (simp add: kv)
    then have "map_of dm k = None"
      by (simp add: map_of_eq_None_iff)
    then show ?thesis
      by (auto simp: g'_def with_default_def kv)
  qed
  finally show ?case .
qed

text \<open>
  Claim C8. For a mapping of buckets and a table of defaults (two dicts: every key once),
  \<open>apply_defaults\<close> keeps the buckets in their order and replaces each in place: a bucket
  whose key is a description of the table gets the table's value as its task id, whatever
  task id it had or did not have, all its other fields as they were; a bucket whose key is
  not in the table is unchanged.
\<close>

theorem apply_defaults_sets_task_id:
  assumes "distinct (map fst g)" and "distinct (map fst dm)"
  shows "apply_defaults g dm =
           map (\<lambda>(key, e). (key, case map_of dm key of
                                    None \<Rightarrow> e
                                  | Some v \<Rightarrow> e\<lparr>entry_task_id := Some v\<rparr>)) g"
proof -
  have "with_default dm = (\<lambda>(key, e). (key, case map_of dm key of
                                    None \<Rightarrow> e
                                  | Some v \<Rightarrow> e\<lparr>entry_task_id := Some v\<rparr>))"
    by (rule ext) (simp add: with_default_def)
  with apply_defaults_map [OF assms] show ?thesis
    by simp
qed

theorem apply_defaults_sets_task_id_witness:
  "apply_defaults
     [(''standup'',
       \<lparr>entry_delta = 10, entry_desc = {''standup''}, entry_task_id = None,
        task_total_mins = 10, task_total_hours = 0, task_total_rest = 10,
        rounded_hours = 1 / 4\<rparr>),
      (''Standup'',
       \<lparr>entry_delta = 60, entry_desc = {''Standup''}, entry_task_id = None,
        task_total_mins = 60, task_total_hours = 1, task_total_rest = 0,
        rounded_hours = 1\<rparr>),
      (''12345 retro'',
       \<lparr>entry_delta = 30, entry_desc = {''retro''}, entry_task_id = Some ''12345'',
        task_total_mins = 30, task_total_hours = 0, task_total_rest = 30,
        rounded_hours = 1 / 2\<rparr>)]
     defaults =
     [(''standup'',
       \<lparr>entry_delta = 10, entry_desc = {''standup''}, entry_task_id = Some ''77488'',
        task_total_mins = 10, task_total_hours = 0, task_total_rest = 10,
        rounded_hours = 1 / 4\<rparr>),
      (''Standup'',
       \<lparr>entry_delta = 60, entry_desc = {''Standup''}, entry_task_id = None,
        task_total_mins = 60, task_total_hours = 1, task_total_rest = 0,
        rounded_hours = 1\<rparr>),
      (''12345 retro'',
       \<lparr>entry_delta = 30, entry_desc = {''retro''}, entry_task_id = Some ''12345'',
        task_total_mins = 30, task_total_hours = 0, task_total_rest = 30,
        rounded_hours = 1 / 2\<rparr>)]"
proof -
  have d: "distinct (map fst defaults)"
    by (simp add: defaults_def)
  show ?thesis
    by (subst apply_defaults_sets_task_id [OF _ d]) (simp_all add: defaults_def)
qed

section \<open>Timestamps out of range\<close>

lemma digit_val_nonneg: "is_digit c \<Longrightarrow> 0 \<le> digit_val c"
  by (simp add: is_digit_def digit_val_def Let_def)

lemma digit_not_colon: "is_digit c \<Longrightarrow> c \<noteq> CHR '':''"
  by (auto simp: is_digit_def)

lemma time_prefix_fields:
  assumes "time_prefix s = Some (t, r)"
  shows "\<exists>h mi. time_fields t = Some (h, mi) \<and> 0 \<le> h \<and> 0 \<le> mi"
  using assms
proof (cases s rule: time_prefix.cases)
  case (1 d1 d2 c3 c4 c5 r')
  with assms show ?thesis
    by (auto simp: time_fields_def py_int_def digit_val_nonneg digit_not_colon split: if_splits)
next
  case (2 d1 d2 c3 c4)
  with assms show ?thesis
    by (auto simp: time_fields_def py_int_def digit_val_nonneg digit_not_colon split: if_splits)
qed simp_all

lemma after_task_id_time: "after_task_id t u = Some (t', tid, d) \<Longrightarrow> t' = t"
  by (auto simp: after_task_id_def split: if_splits)

lemma parse_line_time_prefix:
  assumes "parse_line line = Some (t, tid, d)"
  shows "\<exists>r. time_prefix (dropWhile is_space line) = Some (t, r)"
  using assms unfolding parse_line_direct_eq parse_line_direct_def
  by (auto split: option.splits list.splits if_splits dest: after_task_id_time)

lemma parse_line_time_fields:
  assumes "parse_line line = Some (t, tid, d)"
  shows "\<exists>h mi. time_fields t = Some (h, mi) \<and> 0 \<le> h \<and> 0 \<le> mi"
  using parse_line_time_prefix [OF assms] time_prefix_fields by blast

lemma get_timestamps_Cons_parsed:
  assumes "parse_line line = Some (t, tid, d)" and "time_fields t = Some (h, mi)"
  shows "get_timestamps today (line # lines) =
     (case mk_datetime (year today) (month today) (day today) h mi of
        Inl e \<Rightarrow> Inl e
      | Inr ts \<Rightarrow> (case get_timestamps today lines of
                     Inl e \<Rightarrow> Inl e
                   | Inr rest \<Rightarrow> Inr (ts # rest)))"
  using assms
  by (auto simp: time_fields_def split: list.splits option.splits)

lemma get_timestamps_in_range:
  assumes "valid_date (year today) (month today) (day today)"
    and "\<forall>line \<in> set lines. \<forall>t tid d h mi.
           parse_line line = Some (t, tid, d) \<longrightarrow> time_fields t = Some (h, mi) \<longrightarrow>
           h \<le> 23 \<and> mi \<le> 59"
  shows "\<exists>ts. get_timestamps today lines = Inr ts
           \<and> length ts = length (filter (\<lambda>line. parse_line line \<noteq> None) lines)"
  using assms(2)
proof (induction lines)
  case Nil
  show ?case by simp
next
  case (Cons line lines)
  then obtain ts where ts: "get_timestamps today lines = Inr ts"
    and len: "length ts = length (filter (\<lambda>line. parse_line line \<noteq> None) lines)"
    by auto
  show ?case
  proof (cases "parse_line line")
    case None
    with ts len show ?thesis by simp
  next
    case (Some p)
    obtain t tid d where p: "p = (t, tid, d)"
      by (cases p)
    with Some have parsed: "parse_line line = Some (t, tid, d)"
      by simp
    then obtain h mi where f: "time_fields t = Some (h, mi)" and "0 \<le> h" and "0 \<le> mi"
      using parse_line_time_fields by blast
    moreover from Cons.prems parsed f have "h \<le> 23 \<and> mi \<le> 59"
      by auto
    ultimately have "mk_datetime (year today) (month today) (day today) h mi =
        Inr \<lparr>year = year today, month = month today, day = day today, hour = h, minute = mi\<rparr>"
      using assms(1) by (simp add: mk_datetime_def)
    then show ?thesis
      using ts len parsed by (subst get_timestamps_Cons_parsed [OF parsed f]) simp
  qed
qed

lemma parse_24: "parse_line ''24:00 task'' = Some (''24:00'', None, ''task'')"
  by code_simp

lemma fields_24: "time_fields ''24:00'' = Some (24, 0)"
  by code_simp

lemma parse_99: "parse_line ''08:99 task'' = Some (''08:99'', None, ''task'')"
  by code_simp

lemma fields_99: "time_fields ''08:99'' = Some (8, 99)"
  by code_simp

text \<open>
  Claim C9. For a valid date, when the hour of every matching line is at most 23 and its
  minute at most 59, \<open>get_timestamps\<close> raises nothing and returns one timestamp for each
  matching line. But \<^verbatim>\<open>24:00 task\<close> and \<^verbatim>\<open>08:99 task\<close> match the pattern, and on each of
  them \<open>get_timestamps\<close> ends with the \<^verbatim>\<open>ValueError\<close> of the datetime constructor instead
  of skipping the line: the constructor is called outside the guarded conversion.
\<close>

theorem get_timestamps_raises_out_of_range:
  "(valid_date (year today) (month today) (day today)
      \<and> (\<forall>line \<in> set lines. \<forall>t tid d h mi.
            parse_line line = Some (t, tid, d) \<longrightarrow> time_fields t = Some (h, mi) \<longrightarrow>
            h \<le> 23 \<and> mi \<le> 59)
      \<longrightarrow> (\<exists>ts. get_timestamps today lines = Inr ts
             \<and> length ts = length (filter (\<lambda>line. parse_line line \<noteq> None) lines)))
   \<and> parse_line ''24:00 task'' = Some (''24:00'', None, ''task'')
   \<and> get_timestamps today [''24:00 task''] = Inl ValueError
   \<and> parse_line ''08:99 task'' = Some (''08:99'', None, ''task'')
   \<and> get_timestamps today [''08:99 task''] = Inl ValueError"
proof -
  have "get_timestamps today [''24:00 task''] = Inl ValueError"
    by (subst get_timestamps_Cons_parsed [OF parse_24 fields_24]) (simp add: mk_datetime_def)
  moreover have "get_timestamps today [''08:99 task''] = Inl ValueError"
    by (subst get_timestamps_Cons_parsed [OF parse_99 fields_99]) (simp add: mk_datetime_def)
  ultimately show ?thesis
    using get_timestamps_in_range [of today lines] parse_24 parse_99 by blast
qed

theorem get_timestamps_raises_out_of_range_witness:
  "(\<exists>ts. get_timestamps \<lparr>year = 2026, month = 2, day = 21, hour = 0, minute = 0\<rparr>
            [''08:00 a'', ''notes'', ''23:59 b''] = Inr ts
         \<and> length ts = 2)
   \<and> get_timestamps \<lparr>year = 2026, month = 2, day = 21, hour = 0, minute = 0\<rparr>
         [''24:00 task''] = Inl ValueError"
proof -
  define today where "today = \<lparr>year = 2026, month = 2, day = 21, hour = 0, minute = 0\<rparr>"
  define lines where "lines = [''08:00 a'', ''notes'', ''23:59 b'']"
  have p1: "parse_line ''08:00 a'' = Some (''08:00'', None, ''a'')"
    by code_simp
  have p2: "parse_line ''notes'' = None"
    by code_simp
  have p3: "parse_line ''23:59 b'' = Some (''23:59'', None, ''b'')"
    by code_simp
  have f1: "time_fields ''08:00'' = Some (8, 0)"
    by code_simp
  have f3: "time_fields ''23:59'' = Some (23, 59)"
    by code_simp
  have v: "valid_date (year today) (month today) (day today)"
    by (simp add: today_def valid_date_def days_in_month_def)
  have in_range: "\<forall>line \<in> set lines. \<forall>t tid d h mi.
            parse_line line = Some (t, tid, d) \<longrightarrow> time_fields t = Some (h, mi) \<longrightarrow>
            h \<le> 23 \<and> mi \<le> 59"
    by (auto simp: lines_def p1 p2 p3 f1 f3)
  have n: "length (filter (\<lambda>line. parse_line line \<noteq> None) lines) = 2"
    by (simp add: lines_def p1 p2 p3)
  note all = get_timestamps_raises_out_of_range [of today lines]
  from all v in_range have "\<exists>ts. get_timestamps today lines = Inr ts
      \<and> length ts = length (filter (\<lambda>line. parse_line line \<noteq> None) lines)"
    by blast
  moreover from all have "get_timestamps today [''24:00 task''] = Inl ValueError"
    by blast
  ultimately show ?thesis
    unfolding n unfolding today_def lines_def by blast
qed

section \<open>The marker of a processed file\<close>

lemma dropWhile_all_append: "\<forall>x \<in> set xs. P x \<Longrightarrow> dropWhile P (xs @ ys) = dropWhile P ys"
  by (induction xs) auto

lemma rstrip_append_spaces:
  "list_all is_space ws \<Longrightarrow> rstrip (x @ ws) = rstrip x"
  by (simp add: rstrip_def dropWhile_all_append list_all_iff)

lemma strip_append_spaces:
  assumes "list_all is_space ws"
  shows "strip (s @ ws) = strip s"
proof (cases "list_all is_space s")
  case True
  then have a: "dropWhile is_space s = []"
    by (simp only: dropWhile_eq_Nil_conv list_all_iff)
  from True assms have "list_all is_space (s @ ws)"
    by simp
  then have b: "dropWhile is_space (s @ ws) = []"
    by (simp only: dropWhile_eq_Nil_conv list_all_iff)
  show ?thesis
    by (simp only: strip_def lstrip_def a b)
next
  case False
  then obtain c where "c \<in> set s" and "\<not> is_space c"
    by (auto simp: list_all_iff)
  then have "dropWhile is_space (s @ ws) = dropWhile is_space s @ ws"
    by (rule dropWhile_append1)
  then show ?thesis
    using assms by (simp add: strip_def lstrip_def rstrip_append_spaces)
qed

lemma rstrip_newline_split:
  "\<exists>ws. line = rstrip_newline line @ ws \<and> list_all is_space ws"
proof -
  let ?tw = "takeWhile (\<lambda>c. c = newline) (rev line)"
  let ?dw = "dropWhile (\<lambda>c. c = newline) (rev line)"
  have "rev ?dw @ rev ?tw = rev (?tw @ ?dw)"
    by (simp only: rev_append)
  also have "\<dots> = line"
    by (simp only: takeWhile_dropWhile_id rev_rev_ident)
  finally have e: "rev ?dw @ rev ?tw = line" .
  have "line = rstrip_newline line @ rev ?tw"
    unfolding rstrip_newline_def by (rule e [symmetric])
  moreover have "list_all is_space (rev ?tw)"
    by (auto simp: list_all_iff dest!: set_takeWhileD)
  ultimately show ?thesis
    by blast
qed

lemma strip_rstrip_newline: "strip (rstrip_newline line) = strip line"
proof -
  obtain ws where "line = rstrip_newline line @ ws" and "list_all is_space ws"
    using rstrip_newline_split by blast
  then show ?thesis
    using strip_append_spaces [of ws "rstrip_newline line"] by simp
qed

lemma get_lines_nonblank:
  "get_lines (Some content) = Inr (map rstrip_newline (nonblank_lines content))"
  by (simp add: get_lines_def nonblank_lines_def)

text \<open>
  Claim C5, as stated, fails: the file is detected as processed also when its last line is
  the marker with white space around it. The list of the one line \<^verbatim>\<open>already parsed\<close>
  followed by a blank is detected, and its last line is not exactly \<^verbatim>\<open>already parsed\<close>.
\<close>

theorem is_already_parsed_trailing_blank:
  "is_already_parsed [''already parsed ''] \<and> last [''already parsed ''] \<noteq> ''already parsed''"
  by code_simp

text \<open>
  Claim C5, amended. A list of lines is detected as processed if and only if it is not empty
  and its last line, with the white space at both ends removed, is \<^verbatim>\<open>already parsed\<close>; the
  empty list is not detected. For the lines \<open>get_lines\<close> reads from a file that is: the
  file has a line that is not blank, and the last such line, stripped, is the marker. When
  the lines of the log file are detected, \<open>main\<close> returns at once and leaves everything as
  it was: the file is not written, nothing is parsed or grouped, no entry is sent.
\<close>

theorem is_already_parsed_stripped:
  "(is_already_parsed lines \<longleftrightarrow> lines \<noteq> [] \<and> strip (last lines) = ''already parsed'')
   \<and> \<not> is_already_parsed []
   \<and> (get_lines (Some content) = Inr lines \<longrightarrow>
        (is_already_parsed lines \<longleftrightarrow>
           nonblank_lines content \<noteq> [] \<and>
           strip (last (nonblank_lines content)) = ''already parsed''))
   \<and> (get_lines (log_file w) = Inr lines \<and> is_already_parsed lines \<longrightarrow>
        main today w = Inr w)"
proof -
  have a: "is_already_parsed lines \<longleftrightarrow> lines \<noteq> [] \<and> strip (last lines) = ''already parsed''"
    for lines
    by (simp add: is_already_parsed_def)
  have "is_already_parsed (map rstrip_newline (nonblank_lines content)) \<longleftrightarrow>
      nonblank_lines content \<noteq> [] \<and> strip (last (nonblank_lines content)) = ''already parsed''"
    by (simp add: a last_map strip_rstrip_newline cong: conj_cong)
  then have b: "get_lines (Some content) = Inr lines \<longrightarrow>
        (is_already_parsed lines \<longleftrightarrow>
           nonblank_lines content \<noteq> [] \<and>
           strip (last (nonblank_lines content)) = ''already parsed'')"
    by (auto simp: get_lines_nonblank)
  have c: "get_lines (log_file w) = Inr lines \<and> is_already_parsed lines \<longrightarrow> main today w = Inr w"
    by (simp add: main_def)
  have d: "\<not> is_already_parsed []"
    by (simp add: is_already_parsed_def)
  from a b c d show ?thesis
    by blast
qed

theorem is_already_parsed_stripped_witness:
  "is_already_parsed [''08:00 a'', ''already parsed'']
   \<and> main \<lparr>year = 2026, month = 2, day = 21, hour = 0, minute = 0\<rparr>
        \<lparr>log_file = Some (''08:00 a'' @ [newline] @ ''already parsed''), answer = ''y'',
         remote_entries = []\<rparr> =
      Inr \<lparr>log_file = Some (''08:00 a'' @ [newline] @ ''already parsed''), answer = ''y'',
           remote_entries = []\<rparr>"
proof -
  have lines: "get_lines (Some (''08:00 a'' @ [newline] @ ''already parsed'')) =
      Inr [''08:00 a'', ''already parsed'']"
    by code_simp
  have detected: "is_already_parsed [''08:00 a'', ''already parsed'']"
    by code_simp
  show ?thesis
    using is_already_parsed_stripped
      [of "[''08:00 a'', ''already parsed'']" "''08:00 a'' @ [newline] @ ''already parsed''"
          "\<lparr>log_file = Some (''08:00 a'' @ [newline] @ ''already parsed''), answer = ''y'',
            remote_entries = []\<rparr>"
          "\<lparr>year = 2026, month = 2, day = 21, hour = 0, minute = 0\<rparr>"]
      lines detected
    by simp
qed

section \<open>The buckets of \<open>group_tasks\<close>\<close>





















section \<open>Parsing a line again\<close>

lemma space_is_space: "is_space (CHR '' '')"
  by (simp add: is_space_def)

lemma not_newline_iff: "not_newline c \<longleftrightarrow> c \<noteq> newline"
  by (simp add: not_newline_def)

lemma tail_match_props:
  assumes "tail_match v = Some d"
  shows "newline \<notin> set d \<and> (d = [] \<or> \<not> is_space (hd d))"
proof -
  define w where "w = dropWhile is_space v"
  from assms have d: "d = takeWhile not_newline w"
    by (simp add: tail_match_def w_def Let_def split: if_splits)
  have no_nl: "newline \<notin> set d"
    unfolding d by (auto dest: set_takeWhileD simp: not_newline_iff)
  have "d = [] \<or> \<not> is_space (hd d)"
  proof (cases w)
    case Nil
    then show ?thesis by (simp add: d)
  next
    case (Cons c cs)
    then have "\<not> is_space c"
      using hd_dropWhile [of is_space v] by (simp add: w_def)
    moreover from this have "c \<noteq> newline"
      using newline_is_space by auto
    ultimately show ?thesis
      by (simp add: d Cons not_newline_iff)
  qed
  with no_nl show ?thesis ..
qed

lemma tail_ok_no_newline: "newline \<notin> set d \<Longrightarrow> tail_ok d"
  by (auto simp: tail_ok_def dest: in_set_butlastD)

lemma tail_match_clean:
  assumes "newline \<notin> set d" and "d = [] \<or> \<not> is_space (hd d)" and "list_all is_space ws"
  shows "tail_match (ws @ d) = Some d"
proof -
  have "dropWhile is_space (ws @ d) = dropWhile is_space d"
    using assms(3) by (simp add: dropWhile_all_append list_all_iff)
  also have "\<dots> = d"
    using assms(2) by (rule dropWhile_no_space)
  finally have w: "dropWhile is_space (ws @ d) = d" .
  have "takeWhile not_newline d = d"
    using assms(1) by (auto simp: takeWhile_eq_all_conv not_newline_iff)
  then show ?thesis
    using assms(1) by (simp add: tail_match_def w tail_ok_no_newline)
qed

lemma five_digits_prefix:
  assumes "tail_match u = Some d" and "u = [] \<or> \<not> is_space (hd u)" and "five_digits d"
  shows "five_digits u"
proof -
  from assms(1,2) have d: "d = takeWhile not_newline u"
    by (simp add: tail_match_def dropWhile_no_space split: if_splits)
  have "u = d @ dropWhile not_newline u"
    by (simp add: d)
  then obtain rest where u: "u = d @ rest" ..
  from assms(3) have "5 \<le> length d" and "list_all is_digit (take 5 d)"
    by (simp_all add: five_digits_def)
  then show ?thesis
    by (simp add: u five_digits_def)
qed

lemma time_prefix_reparse:
  assumes "time_prefix s = Some (t, r)"
  shows "time_prefix (t @ r') = Some (t, r')"
  using assms
proof (cases s rule: time_prefix.cases)
  case (1 d1 d2 c3 c4 c5 r0)
  with assms show ?thesis
    by (cases r') (auto split: if_splits)
next
  case (2 d1 d2 c3 c4)
  with assms show ?thesis
    by (cases r') (auto split: if_splits)
qed simp_all

lemma parse_line_parts:
  assumes "parse_line line = Some (t, tid, d)"
  shows "\<exists>c cs. time_prefix (dropWhile is_space line) = Some (t, c # cs) \<and> is_space c
           \<and> after_task_id t (dropWhile is_space cs) = Some (t, tid, d)"
proof -
  from assms obtain a c cs where tp: "time_prefix (dropWhile is_space line) = Some (a, c # cs)"
    and c: "is_space c" and rest: "after_task_id a (dropWhile is_space cs) = Some (t, tid, d)"
    unfolding parse_line_direct_eq parse_line_direct_def
    by (auto split: option.splits list.splits if_splits)
  from rest have "t = a"
    by (rule after_task_id_time)
  with tp c rest show ?thesis
    by blast
qed

lemma parse_line_direct_time:
  assumes "time_prefix s = Some (t, r)" and "is_space c"
  shows "parse_line_direct (t @ c # cs) = after_task_id t (dropWhile is_space cs)"
proof -
  from assms(1) obtain d0 ds where "t = d0 # ds" and "is_digit d0"
    using time_prefix_digit [OF assms(1)] time_prefix_append [OF assms(1)] time_prefix_shape [OF assms(1)]
    by (cases t) auto
  then have "dropWhile is_space (t @ c # cs) = t @ c # cs"
    using space_not_digit by auto
  then show ?thesis
    using assms(2) by (simp add: parse_line_direct_def time_prefix_reparse [OF assms(1)])
qed


text \<open>
  Claim C7. When \<open>parse_line\<close> succeeds on a line with a time, a task id or none, and a
  description, the line written again from these three fields parses to the same three
  fields.
\<close>

theorem parse_line_round_trip:
  assumes "parse_line line = Some (t, tid, d)"
  shows "parse_line (reassemble t tid d) = Some (t, tid, d)"
proof -
  from assms obtain c cs where tp: "time_prefix (dropWhile is_space line) = Some (t, c # cs)"
    and rest: "after_task_id t (dropWhile is_space cs) = Some (t, tid, d)"
    using parse_line_parts by blast
  define u where "u = dropWhile is_space cs"
  have u_start: "u = [] \<or> \<not> is_space (hd u)"
    unfolding u_def using hd_dropWhile [of is_space cs] by blast
  have again: "parse_line (t @ CHR '' '' # v) = after_task_id t (dropWhile is_space v)" for v
    unfolding parse_line_direct_eq using tp space_is_space by (rule parse_line_direct_time)
  show ?thesis
  proof (cases tid)
    case None
    from rest have no_id: "\<not> (five_digits u \<and> tail_match (drop 5 u) \<noteq> None)"
      and d: "tail_match u = Some d"
      by (auto simp: after_task_id_def u_def None split: if_splits)
    have clean: "newline \<notin> set d \<and> (d = [] \<or> \<not> is_space (hd d))"
      using d by (rule tail_match_props)
    then have start: "dropWhile is_space d = d"
      by (simp add: dropWhile_no_space)
    have "tail_match (drop 5 u) \<noteq> None"
      using d u_start by (intro tail_match_drop) simp_all
    with no_id have "\<not> five_digits u"
      by simp
    then have "\<not> five_digits d"
      using five_digits_prefix [OF d u_start] by blast
    moreover have "tail_match d = Some d"
      using tail_match_clean [of d "[]"] clean by simp
    ultimately have "after_task_id t d = Some (t, None, d)"
      by (simp add: after_task_id_def)
    then show ?thesis
      using again [of d] by (simp add: reassemble_def None start)
  next
    case (Some x)
    from rest have five: "five_digits u" and x: "x = take 5 u"
      and d: "tail_match (drop 5 u) = Some d"
      by (auto simp: after_task_id_def u_def Some split: if_splits)
    have clean: "newline \<notin> set d \<and> (d = [] \<or> \<not> is_space (hd d))"
      using d by (rule tail_match_props)
    from five x have len: "length x = 5" and digits: "list_all is_digit x"
      by (simp_all add: five_digits_def)
    then obtain x0 xs where x_cons: "x = x0 # xs" and "is_digit x0"
      by (cases x) auto
    then have start: "dropWhile is_space (x @ CHR '' '' # d) = x @ CHR '' '' # d"
      using space_not_digit by auto
    have "five_digits (x @ CHR '' '' # d)"
      using len digits by (simp add: five_digits_def)
    moreover have "take 5 (x @ CHR '' '' # d) = x" and "drop 5 (x @ CHR '' '' # d) = CHR '' '' # d"
      using len by simp_all
    moreover have "tail_match (CHR '' '' # d) = Some d"
      using tail_match_clean [of d "'' ''"] clean space_is_space by simp
    ultimately have "after_task_id t (x @ CHR '' '' # d) = Some (t, Some x, d)"
      by (simp add: after_task_id_def)
    then show ?thesis
      using again [of "x @ CHR '' '' # d"] by (simp add: reassemble_def Some start)
  qed
qed

theorem parse_line_round_trip_witness:
  "parse_line (''  8:05   123456 foo'' @ [newline]) = Some (''8:05'', Some ''12345'', ''6 foo'')
   \<and> reassemble ''8:05'' (Some ''12345'') ''6 foo'' = ''8:05 12345 6 foo''
   \<and> parse_line ''8:05 12345 6 foo'' = Some (''8:05'', Some ''12345'', ''6 foo'')"
proof -
  have p: "parse_line (''  8:05   123456 foo'' @ [newline]) =
      Some (''8:05'', Some ''12345'', ''6 foo'')"
    by code_simp
  have r: "reassemble ''8:05'' (Some ''12345'') ''6 foo'' = ''8:05 12345 6 foo''"
    by (simp add: reassemble_def)
  from parse_line_round_trip [OF p] have
    "parse_line (reassemble ''8:05'' (Some ''12345'') ''6 foo'') =
       Some (''8:05'', Some ''12345'', ''6 foo'')" .
  then have "parse_line ''8:05 12345 6 foo'' = Some (''8:05'', Some ''12345'', ''6 foo'')"
    by (simp only: r)
  with p r show ?thesis
    by blast
qed

end
